theory Spec2Isabelle
  imports Main "HOL-Library.Product_Lexorder"
begin

section \<open>Python values, dictionaries and exceptions\<close>

text \<open>
  The module \<open>databank/image_data.py\<close> works on dictionaries of decoded DICOM metadata.
  Dates, times and naive timestamps are tuples of naturals; timestamps compare
  lexicographically, as \<open>datetime.datetime\<close> does.
\<close>

type_synonym date = "nat \<times> nat \<times> nat"
type_synonym time = "nat \<times> nat \<times> nat \<times> nat"
type_synonym datetime = "date \<times> time"

text \<open>
  A value held in a metadata dictionary. \<open>VList\<close> is a Python list, \<open>VCounter\<close> a
  \<open>collections.Counter\<close>: a dictionary from the counted value to its count, in insertion order.
\<close>

datatype pyval =
    VStr string
  | VInt int
  | VList "pyval list"
  | VDate date
  | VTime time
  | VDateTime datetime
  | VCounter "(pyval \<times> nat) list"

text \<open>
  The exceptions the module can meet. \<open>KeyError\<close> carries the missing key, the others the
  name or message they report.
\<close>

datatype exn =
    IOError string
  | InvalidDicomError string
  | AttributeError string
  | KeyError pyval
  | NameError string
  | UnboundLocalError string
  | TypeError string

text \<open>Sequencing of statements that may raise: the first exception ends the computation.\<close>

fun then_do :: "exn + 'a \<Rightarrow> ('a \<Rightarrow> exn + 'b) \<Rightarrow> exn + 'b" where
  "then_do (Inl e) f = Inl e"
| "then_do (Inr x) f = f x"

text \<open>A dictionary with string keys, in insertion order (the keys are distinct).\<close>

type_synonym dict = "(string \<times> pyval) list"

text \<open>\<open>d[k]\<close>: raises \<open>KeyError\<close> when the key is absent.\<close>

definition getitem :: "dict \<Rightarrow> string \<Rightarrow> exn + pyval" where
  "getitem d k = (case map_of d k of None \<Rightarrow> Inl (KeyError (VStr k)) | Some v \<Rightarrow> Inr v)"

text \<open>\<open>k in d\<close>.\<close>

definition has_key :: "dict \<Rightarrow> string \<Rightarrow> bool" where
  "has_key d k = (map_of d k \<noteq> None)"

text \<open>\<open>d[k] = v\<close>: replaces the value in place, or appends a new key.\<close>

fun setitem :: "dict \<Rightarrow> string \<Rightarrow> pyval \<Rightarrow> dict" where
  "setitem [] k v = [(k, v)]"
| "setitem ((k', v') # d) k v = (if k' = k then (k', v) # d else (k', v') # setitem d k v)"

text \<open>Lists and dictionaries (so also counters) cannot be hashed.\<close>

fun hashable :: "pyval \<Rightarrow> bool" where
  "hashable (VList xs) = False"
| "hashable (VCounter c) = False"
| "hashable v = True"

text \<open>\<open>iter(v)\<close>: the elements a \<open>for\<close> loop or generator expression draws from \<open>v\<close>.\<close>

fun py_iter :: "pyval \<Rightarrow> exn + pyval list" where
  "py_iter (VList xs) = Inr xs"
| "py_iter (VStr s) = Inr (map (\<lambda>c. VStr [c]) s)"
| "py_iter (VCounter c) = Inr (map fst c)"
| "py_iter v = Inl (TypeError ''object is not iterable'')"

subsection \<open>Counters\<close>

text \<open>Counting one more occurrence of \<open>v\<close>: \<open>c[v] = c.get(v, 0) + 1\<close>.\<close>

fun counter_add :: "(pyval \<times> nat) list \<Rightarrow> pyval \<Rightarrow> (pyval \<times> nat) list" where
  "counter_add [] v = [(v, 1)]"
| "counter_add ((k, n) # c) v = (if k = v then (k, Suc n) # c else (k, n) # counter_add c v)"

text \<open>\<open>c.update(iterable)\<close>: counts each element in turn; an unhashable element raises.\<close>

fun counter_update :: "(pyval \<times> nat) list \<Rightarrow> pyval list \<Rightarrow> exn + (pyval \<times> nat) list" where
  "counter_update c [] = Inr c"
| "counter_update c (v # vs) =
     (if hashable v then counter_update (counter_add c v) vs
      else Inl (TypeError ''unhashable type''))"

text \<open>\<open>Counter(iterable)\<close>.\<close>

definition Counter :: "pyval list \<Rightarrow> exn + (pyval \<times> nat) list" where
  "Counter vs = counter_update [] vs"

text \<open>The count of a value, and the sum of all counts of a frequency table.\<close>

definition counter_get :: "(pyval \<times> nat) list \<Rightarrow> pyval \<Rightarrow> nat" where
  "counter_get c v = (case map_of c v of None \<Rightarrow> 0 | Some n \<Rightarrow> n)"

definition counter_total :: "(pyval \<times> nat) list \<Rightarrow> nat" where
  "counter_total c = sum_list (map snd c)"

section \<open>The file walker\<close>

text \<open>
  The collaborators of \<open>walk_image_data\<close>: \<open>os.walk\<close>, the decoder \<open>read_metadata\<close> of
  \<open>databank/dicom.py\<close> (which returns a metadata dictionary or raises), and the
  normalised relative path \<open>os.path.normpath(os.path.relpath(abspath, path))\<close>.
\<close>

record env =
  os_walk :: "string \<Rightarrow> (string \<times> string list \<times> string list) list"
  read_metadata :: "string \<Rightarrow> bool \<Rightarrow> exn + dict"
  os_path_relpath :: "string \<Rightarrow> string \<Rightarrow> string"

text \<open>\<open>os.path.join\<close> of a directory and a name (POSIX).\<close>

definition os_path_join :: "string \<Rightarrow> string \<Rightarrow> string" where
  "os_path_join root filename =
     (if filename \<noteq> [] \<and> hd filename = CHR ''/'' then filename
      else if root = [] \<or> last root = CHR ''/'' then root @ filename
      else root @ ''/'' @ filename)"

text \<open>
  What the generator does, in order: it writes log entries and yields pairs of metadata and
  relative path. The summary entry carries the file count; the elapsed wall-clock time is
  left out.
\<close>

datatype event =
    LogStart string
  | LogRead string
  | LogCannotRead string string
  | LogProcessed nat string
  | Yield dict string

text \<open>
  A run of the generator: the events it produces, then the exception that ends it, if any.
\<close>

type_synonym gen = "event list \<times> exn option"

text \<open>Running \<open>g\<close> and, unless it raised, continuing with \<open>h\<close>.\<close>

fun gen_seq :: "gen \<Rightarrow> gen \<Rightarrow> gen" where
  "gen_seq (evs, Some e) h = (evs, Some e)"
| "gen_seq (evs, None) (evs', r) = (evs @ evs', r)"

text \<open>
  The inner loop of \<open>walk_image_data\<close> over the files of one directory. A file named
  \<open>DICOMDIR\<close> is skipped before it is read. Of the \<open>except\<close> clauses only the first can
  be reached: the second names \<open>dicom.filereader.InvalidDicomError\<close>, and the module binds
  no name \<open>dicom\<close> (it imports \<open>read_metadata\<close> from \<open>.dicom\<close> only), so matching any
  exception other than \<open>IOError\<close> raises \<open>NameError\<close>.
\<close>

fun walk_files :: "env \<Rightarrow> string \<Rightarrow> bool \<Rightarrow> string \<Rightarrow> string list \<Rightarrow> gen" where
  "walk_files E path force root [] = ([], None)"
| "walk_files E path force root (filename # files) =
     (let abspath = os_path_join root filename;
          relpath = os_path_relpath E abspath path
      in if filename = ''DICOMDIR'' then walk_files E path force root files
         else gen_seq ([LogRead relpath], None)
           (case read_metadata E abspath force of
              Inl (IOError e) \<Rightarrow>
                gen_seq ([LogCannotRead e relpath], None) (walk_files E path force root files)
            | Inl _ \<Rightarrow> ([], Some (NameError ''dicom''))
            | Inr metadata \<Rightarrow>
                gen_seq ([Yield metadata relpath], None) (walk_files E path force root files)))"

text \<open>The outer loop over the directories; \<open>n\<close> counts every file name listed.\<close>

fun walk_dirs ::
  "env \<Rightarrow> string \<Rightarrow> bool \<Rightarrow> nat \<Rightarrow> (string \<times> string list \<times> string list) list \<Rightarrow> gen" where
  "walk_dirs E path force n [] = ([LogProcessed n path], None)"
| "walk_dirs E path force n ((root, dirs, files) # rest) =
     gen_seq (walk_files E path force root files)
       (walk_dirs E path force (n + length files) rest)"

definition walk_image_data :: "env \<Rightarrow> string \<Rightarrow> bool \<Rightarrow> gen" where
  "walk_image_data E path force =
     gen_seq ([LogStart path], None) (walk_dirs E path force 0 (os_walk E path))"

text \<open>The pairs a consumer of the generator receives.\<close>

fun yields :: "event list \<Rightarrow> (dict \<times> string) list" where
  "yields [] = []"
| "yields (Yield metadata relpath # evs) = (metadata, relpath) # yields evs"
| "yields (ev # evs) = yields evs"

section \<open>The series aggregator\<close>

text \<open>
  \<open>Series = namedtuple('Series', ['metadata', 'images'])\<close>. The result \<open>series_dict\<close>
  maps a series identifier to its \<open>Series\<close>; \<open>images\<close> maps an image identifier to a path.
\<close>

record Series =
  metadata :: dict
  images :: "pyval \<rightharpoonup> string"

type_synonym series_dict = "pyval \<rightharpoonup> Series"

text \<open>Reading a local variable that may not have been assigned yet.\<close>

definition local_var :: "string \<Rightarrow> 'a option \<Rightarrow> exn + 'a" where
  "local_var name v = (case v of None \<Rightarrow> Inl (UnboundLocalError name) | Some x \<Rightarrow> Inr x)"

text \<open>Lines 93 to 97: the compulsory metadata, read in this order.\<close>

definition compulsory_metadata ::
  "dict \<Rightarrow> exn + (pyval \<times> pyval \<times> pyval \<times> pyval \<times> pyval)" where
  "compulsory_metadata md =
     then_do (getitem md ''SeriesInstanceUID'') (\<lambda>series_uid.
     then_do (getitem md ''SOPInstanceUID'') (\<lambda>image_uid.
     then_do (getitem md ''SeriesNumber'') (\<lambda>series_number.
     then_do (getitem md ''SeriesDescription'') (\<lambda>series_description.
     then_do (getitem md ''ImageType'') (\<lambda>image_types.
     Inr (series_uid, image_uid, series_number, series_description, image_types))))))"

text \<open>
  \<open>datetime.datetime.combine(d, t)\<close> takes a date (or the date of a timestamp) and a time;
  \<open>d.year\<close>, \<open>d.month\<close>, \<open>d.day\<close> exist on dates and timestamps only.
\<close>

fun date_of :: "pyval \<Rightarrow> date option" where
  "date_of (VDate d) = Some d"
| "date_of (VDateTime (d, t)) = Some d"
| "date_of v = None"

definition datetime_combine :: "pyval \<Rightarrow> pyval \<Rightarrow> exn + datetime" where
  "datetime_combine d t =
     (case (date_of d, t) of
        (Some d', VTime t') \<Rightarrow> Inr (d', t')
      | _ \<Rightarrow> Inl (TypeError ''combine() argument''))"

definition datetime_midnight :: "pyval \<Rightarrow> exn + datetime" where
  "datetime_midnight d =
     (case date_of d of
        Some d' \<Rightarrow> Inr (d', (0, 0, 0, 0))
      | None \<Rightarrow> Inl (AttributeError ''year''))"

text \<open>
  Lines 98 to 107: the new value of the local variable \<open>timestamp\<close>. The variable is
  assigned only when the record has an \<open>AcquisitionDate\<close>; otherwise it keeps whatever an
  earlier iteration of the loop left in it (\<open>None\<close>: never assigned).
\<close>

definition acquisition_timestamp :: "dict \<Rightarrow> datetime option \<Rightarrow> exn + datetime option" where
  "acquisition_timestamp md timestamp =
     (if has_key md ''AcquisitionDate'' then
        then_do (getitem md ''AcquisitionDate'') (\<lambda>acquisition_date.
          if has_key md ''AcquisitionTime'' then
            then_do (getitem md ''AcquisitionTime'') (\<lambda>acquisition_time.
            then_do (datetime_combine acquisition_date acquisition_time) (\<lambda>ts.
            Inr (Some ts)))
          else
            then_do (datetime_midnight acquisition_date) (\<lambda>ts. Inr (Some ts)))
      else Inr timestamp)"

text \<open>\<open>series_uid not in series_dict\<close>: the key is hashed first.\<close>

definition not_in :: "pyval \<Rightarrow> series_dict \<Rightarrow> exn + bool" where
  "not_in series_uid sd =
     (if hashable series_uid then Inr (sd series_uid = None)
      else Inl (TypeError ''unhashable type''))"

text \<open>
  Lines 111 to 118, a series seen for the first time. The local name \<open>metadata\<close> is bound
  anew to the dictionary built here, which is also the one stored in the \<open>Series\<close>; the
  function returns it with the updated \<open>series_dict\<close>.
\<close>

definition first_seen ::
  "series_dict \<Rightarrow> pyval \<Rightarrow> pyval \<Rightarrow> pyval \<Rightarrow> pyval \<Rightarrow> pyval \<Rightarrow> datetime option \<Rightarrow> string
     \<Rightarrow> exn + (dict \<times> series_dict)" where
  "first_seen sd series_uid image_uid series_number series_description image_types
       timestamp relpath =
     then_do (Counter [series_number]) (\<lambda>c1.
     then_do (Counter [series_description]) (\<lambda>c2.
     then_do (py_iter image_types) (\<lambda>tags.
     then_do (Counter tags) (\<lambda>c3.
     then_do (local_var ''timestamp'' timestamp) (\<lambda>ts.
       let md' = [(''SeriesNumber'', VCounter c1),
                  (''SeriesDescription'', VCounter c2),
                  (''ImageType'', VCounter c3),
                  (''MinAcquisitionDateTime'', VDateTime ts),
                  (''MaxAcquisitionDateTime'', VDateTime ts)]
       in if hashable image_uid
          then Inr (md', sd(series_uid \<mapsto> \<lparr>metadata = md', images = [image_uid \<mapsto> relpath]\<rparr>))
          else Inl (TypeError ''unhashable type''))))))"

text \<open>\<open>series_dict[series_uid]\<close>.\<close>

definition get_series :: "series_dict \<Rightarrow> pyval \<Rightarrow> exn + Series" where
  "get_series sd series_uid =
     (case sd series_uid of None \<Rightarrow> Inl (KeyError series_uid) | Some s \<Rightarrow> Inr s)"

text \<open>
  \<open>series_dict[series_uid].metadata[field].update(arg)\<close>: the table is looked up and its
  \<open>update\<close> attribute fetched before the argument \<open>arg\<close> is evaluated.
\<close>

definition counter_field_update ::
  "series_dict \<Rightarrow> pyval \<Rightarrow> string \<Rightarrow> (exn + pyval list) \<Rightarrow> exn + series_dict" where
  "counter_field_update sd series_uid field arg =
     then_do (get_series sd series_uid) (\<lambda>s.
     then_do (getitem (metadata s) field) (\<lambda>table.
       case table of
         VCounter c \<Rightarrow>
           then_do arg (\<lambda>vs.
           then_do (counter_update c vs) (\<lambda>c'.
           Inr (sd(series_uid \<mapsto> s\<lparr>metadata := setitem (metadata s) field (VCounter c')\<rparr>))))
       | _ \<Rightarrow> Inl (AttributeError ''update'')))"

text \<open>\<open>a < b\<close> where \<open>a\<close> is a timestamp: \<open>b\<close> must be one too.\<close>

definition datetime_less :: "datetime \<Rightarrow> pyval \<Rightarrow> exn + bool" where
  "datetime_less a b =
     (case b of VDateTime b' \<Rightarrow> Inr (a < b')
      | _ \<Rightarrow> Inl (TypeError ''cannot compare datetime''))"

definition datetime_greater :: "datetime \<Rightarrow> pyval \<Rightarrow> exn + bool" where
  "datetime_greater a b =
     (case b of VDateTime b' \<Rightarrow> Inr (b' < a)
      | _ \<Rightarrow> Inl (TypeError ''cannot compare datetime''))"

text \<open>\<open>series_dict[series_uid].metadata[field] = v\<close>.\<close>

definition set_series_field :: "series_dict \<Rightarrow> pyval \<Rightarrow> string \<Rightarrow> pyval \<Rightarrow> exn + series_dict" where
  "set_series_field sd series_uid field v =
     then_do (get_series sd series_uid) (\<lambda>s.
     Inr (sd(series_uid \<mapsto> s\<lparr>metadata := setitem (metadata s) field v\<rparr>)))"

text \<open>Lines 123 to 126: widening the timestamp interval of the series.\<close>

definition update_extrema :: "series_dict \<Rightarrow> pyval \<Rightarrow> datetime option \<Rightarrow> exn + series_dict" where
  "update_extrema sd series_uid timestamp =
     then_do (local_var ''timestamp'' timestamp) (\<lambda>ts.
     then_do (get_series sd series_uid) (\<lambda>s.
     then_do (getitem (metadata s) ''MinAcquisitionDateTime'') (\<lambda>mn.
     then_do (datetime_less ts mn) (\<lambda>below.
     then_do (if below then set_series_field sd series_uid ''MinAcquisitionDateTime'' (VDateTime ts)
              else Inr sd) (\<lambda>sd1.
     then_do (get_series sd1 series_uid) (\<lambda>s1.
     then_do (getitem (metadata s1) ''MaxAcquisitionDateTime'') (\<lambda>mx.
     then_do (datetime_greater ts mx) (\<lambda>above.
     if above then set_series_field sd1 series_uid ''MaxAcquisitionDateTime'' (VDateTime ts)
     else Inr sd1))))))))"

text \<open>
  Line 128, \<open>series_dict[series_uid].files[image_uid] = relpath\<close>: a \<open>Series\<close> has the
  fields \<open>metadata\<close> and \<open>images\<close> and no attribute \<open>files\<close>.
\<close>

definition insert_image :: "series_dict \<Rightarrow> pyval \<Rightarrow> pyval \<Rightarrow> string \<Rightarrow> exn + series_dict" where
  "insert_image sd series_uid image_uid relpath =
     then_do (get_series sd series_uid) (\<lambda>s. Inl (AttributeError ''files''))"

text \<open>
  Lines 120 to 128, a series seen before. Line 121 passes \<open>[SeriesDescription]\<close>, a name
  bound nowhere (the local is \<open>series_description\<close>): evaluating the argument raises
  \<open>NameError\<close>.
\<close>

definition update_series ::
  "series_dict \<Rightarrow> pyval \<Rightarrow> pyval \<Rightarrow> pyval \<Rightarrow> pyval \<Rightarrow> pyval \<Rightarrow> datetime option \<Rightarrow> string
     \<Rightarrow> exn + series_dict" where
  "update_series sd series_uid image_uid series_number series_description image_types
       timestamp relpath =
     then_do (counter_field_update sd series_uid ''SeriesNumber'' (Inr [series_number])) (\<lambda>sd1.
     then_do (counter_field_update sd1 series_uid ''SeriesDescription''
                (Inl (NameError ''SeriesDescription''))) (\<lambda>sd2.
     then_do (counter_field_update sd2 series_uid ''ImageType'' (py_iter image_types)) (\<lambda>sd3.
     then_do (update_extrema sd3 series_uid timestamp) (\<lambda>sd4.
     insert_image sd4 series_uid image_uid relpath))))"

text \<open>The field names the loop over the optional metadata leaves out (lines 132 to 134).\<close>

definition named_fields :: "string list" where
  "named_fields = [''SeriesInstanceUID'', ''SeriesNumber'', ''SeriesDescription'',
                   ''SOPInstanceUID'', ''ImageType'', ''AcquisitionDate'', ''AcquisitionTime'']"

text \<open>Lines 132 to 138, the body of the loop for one key \<open>x\<close> of \<open>metadata\<close>.\<close>

definition optional_field :: "dict \<Rightarrow> pyval \<Rightarrow> string \<Rightarrow> series_dict \<Rightarrow> exn + series_dict" where
  "optional_field md series_uid x sd =
     (if x \<notin> set named_fields then
        then_do (get_series sd series_uid) (\<lambda>s.
          if has_key (metadata s) x then
            counter_field_update sd series_uid x (then_do (getitem md x) (\<lambda>v. Inr [v]))
          else
            then_do (getitem md x) (\<lambda>v.
            then_do (Counter [v]) (\<lambda>c.
            set_series_field sd series_uid x (VCounter c))))
      else Inr sd)"

text \<open>
  Lines 131 to 138: \<open>for x in metadata\<close>, over the keys of whatever dictionary the name
  \<open>metadata\<close> is bound to when the loop starts.
\<close>

fun optional_metadata :: "string list \<Rightarrow> dict \<Rightarrow> pyval \<Rightarrow> series_dict \<Rightarrow> exn + series_dict" where
  "optional_metadata [] md series_uid sd = Inr sd"
| "optional_metadata (x # xs) md series_uid sd =
     then_do (optional_field md series_uid x sd) (optional_metadata xs md series_uid)"

text \<open>
  The first part of the body of the loop of \<open>report_image_data\<close> (lines 92 to 128) for one
  pair the walker yields: the compulsory metadata, the timestamp, and the entry of the record
  into \<open>series_dict\<close>. The state carried from one iteration to the next is \<open>series_dict\<close>
  and the local variable \<open>timestamp\<close>. The result gives the series identifier, the
  dictionary the name \<open>metadata\<close> is bound to afterwards (after the first-seen branch the
  dictionary of the series, after the other branch still the record), the new \<open>series_dict\<close>
  and the variable \<open>timestamp\<close>.
\<close>

definition fold_record ::
  "dict \<times> string \<Rightarrow> series_dict \<times> datetime option
     \<Rightarrow> exn + (pyval \<times> dict \<times> series_dict \<times> datetime option)" where
  "fold_record rec st =
     (case (rec, st) of ((md, relpath), (sd, timestamp0)) \<Rightarrow>
     then_do (compulsory_metadata md)
       (\<lambda>(series_uid, image_uid, series_number, series_description, image_types).
     then_do (acquisition_timestamp md timestamp0) (\<lambda>timestamp.
     then_do (not_in series_uid sd) (\<lambda>new.
       if new then
         then_do (first_seen sd series_uid image_uid series_number series_description
                    image_types timestamp relpath) (\<lambda>(md', sd').
         Inr (series_uid, md', sd', timestamp))
       else
         then_do (update_series sd series_uid image_uid series_number series_description
                    image_types timestamp relpath) (\<lambda>sd'.
         Inr (series_uid, md, sd', timestamp))))))"

text \<open>
  The whole body of the loop (lines 92 to 138): the first part, then the loop over the
  optional metadata.
\<close>

definition report_step ::
  "dict \<times> string \<Rightarrow> series_dict \<times> datetime option \<Rightarrow> exn + (series_dict \<times> datetime option)" where
  "report_step rec st =
     then_do (fold_record rec st) (\<lambda>(series_uid, md', sd', timestamp).
     then_do (optional_metadata (map fst md') md' series_uid sd') (\<lambda>sd''.
     Inr (sd'', timestamp)))"

text \<open>The loop over the pairs the walker yields.\<close>

fun report_loop ::
  "(dict \<times> string) list \<Rightarrow> series_dict \<times> datetime option
     \<Rightarrow> exn + (series_dict \<times> datetime option)" where
  "report_loop [] st = Inr st"
| "report_loop (rec # recs) st = then_do (report_step rec st) (report_loop recs)"

text \<open>
  \<open>report_image_data(path, force)\<close>: the walker is called with \<open>force=True\<close>. An exception
  of the walker reaches the caller once the pairs yielded before it have been folded.
\<close>

definition report_image_data :: "env \<Rightarrow> string \<Rightarrow> bool \<Rightarrow> exn + series_dict" where
  "report_image_data E path force =
     (case walk_image_data E path True of (evs, raised) \<Rightarrow>
        then_do (report_loop (yields evs) (Map.empty, None)) (\<lambda>(sd, timestamp).
        case raised of Some e \<Rightarrow> Inl e | None \<Rightarrow> Inr sd))"

section \<open>Auxiliary notions for the properties\<close>

text \<open>The summary entry at the end of a walk, and a run of the walker without it.\<close>

fun is_summary :: "event \<Rightarrow> bool" where
  "is_summary (LogProcessed n path) = True"
| "is_summary ev = False"

definition unsummarised :: "gen \<Rightarrow> gen" where
  "unsummarised g = (filter (\<lambda>ev. \<not> is_summary ev) (fst g), snd g)"

text \<open>A directory listing with every file named \<open>DICOMDIR\<close> removed.\<close>

definition without_dicomdir ::
  "(string \<times> string list \<times> string list) list \<Rightarrow> (string \<times> string list \<times> string list) list" where
  "without_dicomdir tree =
     map (\<lambda>(root, dirs, files). (root, dirs, filter (\<lambda>f. f \<noteq> ''DICOMDIR'') files)) tree"

text \<open>The compulsory fields in the order in which the aggregator reads them.\<close>

definition compulsory_fields :: "string list" where
  "compulsory_fields = [''SeriesInstanceUID'', ''SOPInstanceUID'', ''SeriesNumber'',
                        ''SeriesDescription'', ''ImageType'']"

text \<open>The timestamp interval of a series is well formed: both ends are timestamps, in order.\<close>

definition extrema_ordered :: "Series \<Rightarrow> bool" where
  "extrema_ordered s =
     (case (map_of (metadata s) ''MinAcquisitionDateTime'',
            map_of (metadata s) ''MaxAcquisitionDateTime'') of
        (Some (VDateTime mn), Some (VDateTime mx)) \<Rightarrow> mn \<le> mx
      | _ \<Rightarrow> False)"


section \<open>Example records and directory trees\<close>

definition rec_a :: dict where
  "rec_a = [(''SeriesInstanceUID'', VStr ''S1''), (''SOPInstanceUID'', VStr ''I1''),
            (''SeriesNumber'', VInt 1), (''SeriesDescription'', VStr ''T1''),
            (''ImageType'', VList [VStr ''ORIGINAL'', VStr ''PRIMARY'']),
            (''AcquisitionDate'', VDate (2020, 1, 1)), (''Modality'', VStr ''MR'')]"

definition rec_b :: dict where
  "rec_b = [(''SeriesInstanceUID'', VStr ''S1''), (''SOPInstanceUID'', VStr ''I2''),
            (''SeriesNumber'', VInt 1), (''SeriesDescription'', VStr ''T1''),
            (''ImageType'', VList [VStr ''ORIGINAL'', VStr ''PRIMARY'']),
            (''AcquisitionDate'', VDate (2020, 1, 3)), (''Modality'', VStr ''MR'')]"

text \<open>A record of another series, without acquisition date.\<close>

definition rec_c :: dict where
  "rec_c = [(''SeriesInstanceUID'', VStr ''S2''), (''SOPInstanceUID'', VStr ''I3''),
            (''SeriesNumber'', VInt 2), (''SeriesDescription'', VStr ''T2''),
            (''ImageType'', VList [VStr ''DERIVED''])]"

text \<open>A record the decoder returns without \<open>SeriesNumber\<close>.\<close>

definition rec_d :: dict where
  "rec_d = [(''SeriesInstanceUID'', VStr ''S1''), (''SOPInstanceUID'', VStr ''I4''),
            (''SeriesDescription'', VStr ''T1''),
            (''ImageType'', VList [VStr ''ORIGINAL'', VStr ''PRIMARY'']),
            (''AcquisitionDate'', VDate (2020, 1, 1))]"

text \<open>
  A decoder: what it finds under each path. \<open>a_copy.dcm\<close> is a second copy of \<open>a.dcm\<close>;
  \<open>nonstandard.dcm\<close> can only be read when forced.
\<close>

definition example_decode :: "string \<Rightarrow> bool \<Rightarrow> exn + dict" where
  "example_decode abspath force =
     (if abspath = ''/data/a.dcm'' then Inr rec_a
      else if abspath = ''/data/a_copy.dcm'' then Inr rec_a
      else if abspath = ''/data/b.dcm'' then Inr rec_b
      else if abspath = ''/data/c.dcm'' then Inr rec_c
      else if abspath = ''/data/d.dcm'' then Inr rec_d
      else if abspath = ''/data/DICOMDIR'' then Inr rec_c
      else if abspath = ''/data/nonstandard.dcm'' then
        (if force then Inr rec_b else Inl (InvalidDicomError ''missing header''))
      else if abspath = ''/data/broken.dcm'' then Inl (InvalidDicomError ''not a DICOM file'')
      else if abspath = ''/data/noattr.dcm'' then Inl (AttributeError ''PatientID'')
      else Inl (IOError ''cannot open''))"

text \<open>A directory \<open>path\<close> holding the given files and no subdirectory.\<close>

definition example_env :: "string list \<Rightarrow> (string \<Rightarrow> bool \<Rightarrow> exn + dict) \<Rightarrow> env" where
  "example_env files decode =
     \<lparr>os_walk = (\<lambda>path. [(path, [], files)]),
      read_metadata = decode,
      os_path_relpath = (\<lambda>abspath path. drop (Suc (length path)) abspath)\<rparr>"

text \<open>The state of the loop once the aggregate of \<open>rec_a\<close> has been built by lines 111 to 118.\<close>

definition metadata_a :: dict where
  "metadata_a = [(''SeriesNumber'', VCounter [(VInt 1, 1)]),
                 (''SeriesDescription'', VCounter [(VStr ''T1'', 1)]),
                 (''ImageType'', VCounter [(VStr ''ORIGINAL'', 1), (VStr ''PRIMARY'', 1)]),
                 (''MinAcquisitionDateTime'', VDateTime ((2020, 1, 1), (0, 0, 0, 0))),
                 (''MaxAcquisitionDateTime'', VDateTime ((2020, 1, 1), (0, 0, 0, 0)))]"

definition series_dict_a :: series_dict where
  "series_dict_a =
     [VStr ''S1'' \<mapsto> \<lparr>metadata = metadata_a, images = [VStr ''I1'' \<mapsto> ''a.dcm'']\<rparr>]"

text \<open>
  The aggregate lines 111 to 118 build for \<open>rec_c\<close> when the variable \<open>timestamp\<close> holds
  midnight of 2020-01-01, and a state of the loop with both series.
\<close>

definition metadata_c :: dict where
  "metadata_c = [(''SeriesNumber'', VCounter [(VInt 2, 1)]),
                 (''SeriesDescription'', VCounter [(VStr ''T2'', 1)]),
                 (''ImageType'', VCounter [(VStr ''DERIVED'', 1)]),
                 (''MinAcquisitionDateTime'', VDateTime ((2020, 1, 1), (0, 0, 0, 0))),
                 (''MaxAcquisitionDateTime'', VDateTime ((2020, 1, 1), (0, 0, 0, 0)))]"

definition series_dict_ac :: series_dict where
  "series_dict_ac =
     series_dict_a(VStr ''S2'' \<mapsto> \<lparr>metadata = metadata_c, images = [VStr ''I3'' \<mapsto> ''c.dcm'']\<rparr>)"



section \<open>Evaluation of the definitions\<close>

lemmas walker_defs = walk_image_data_def os_path_join_def example_env_def example_decode_def
  Let_def

lemmas step_defs = report_step_def fold_record_def compulsory_metadata_def getitem_def
  acquisition_timestamp_def has_key_def datetime_midnight_def datetime_combine_def not_in_def
  first_seen_def Counter_def local_var_def optional_field_def named_fields_def get_series_def
  counter_field_update_def update_series_def update_extrema_def insert_image_def
  set_series_field_def datetime_less_def datetime_greater_def Let_def


lemma then_do_Inr_iff: "then_do m f = Inr y \<longleftrightarrow> (\<exists>x. m = Inr x \<and> f x = Inr y)"
  by (cases m) auto

lemma then_do_Inl_iff:
  "then_do m f = Inl e \<longleftrightarrow> m = Inl e \<or> (\<exists>x. m = Inr x \<and> f x = Inl e)"
  by (cases m) auto

section \<open>Counters\<close>

text \<open>Each counted element adds one to its own count and to the sum of the table.\<close>

lemma counter_add_total: "counter_total (counter_add c v) = Suc (counter_total c)"
  by (induction c v rule: counter_add.induct) (simp_all add: counter_total_def)

lemma counter_add_get:
  "counter_get (counter_add c v) w = (if w = v then Suc (counter_get c v) else counter_get c w)"
  by (induction c v rule: counter_add.induct) (auto simp: counter_get_def)

lemma counter_update_total:
  "counter_update c vs = Inr c' \<Longrightarrow> counter_total c' = counter_total c + length vs"
  by (induction c vs rule: counter_update.induct)
     (auto simp: counter_add_total split: if_splits)

section \<open>The walker\<close>

lemma walk_files_cong:
  assumes "\<forall>f \<in> set files. f \<noteq> ''DICOMDIR'' \<longrightarrow>
             read_metadata E' (os_path_join root f) force = read_metadata E (os_path_join root f) force"
    and "os_path_relpath E' = os_path_relpath E"
  shows "walk_files E' path force root files = walk_files E path force root files"
  using assms
proof (induction files)
  case Nil
  show ?case by simp
next
  case (Cons f files)
  have "walk_files E' path force root files = walk_files E path force root files"
    using Cons by simp
  then show ?case using Cons.prems by (simp add: Let_def split: sum.split exn.split)
qed

lemma walk_files_filter:
  "walk_files E path force root (filter (\<lambda>f. f \<noteq> ''DICOMDIR'') files) =
   walk_files E path force root files"
  by (induction files) (simp_all add: Let_def split: sum.split exn.split)

lemma unsummarised_gen_seq:
  "unsummarised (gen_seq g h) = gen_seq (unsummarised g) (unsummarised h)"
  by (cases g; cases h; cases "snd g") (auto simp: unsummarised_def)

lemma yields_filter: "yields (filter (\<lambda>ev. \<not> is_summary ev) evs) = yields evs"
  by (induction evs rule: yields.induct) simp_all

lemma walk_dirs_stripped:
  assumes "\<forall>(root, dirs, files) \<in> set tree. \<forall>f \<in> set files. f \<noteq> ''DICOMDIR'' \<longrightarrow>
             read_metadata E' (os_path_join root f) force = read_metadata E (os_path_join root f) force"
    and "os_path_relpath E' = os_path_relpath E"
  shows "unsummarised (walk_dirs E' path force n' (without_dicomdir tree)) =
         unsummarised (walk_dirs E path force n tree)"
  using assms
proof (induction tree arbitrary: n n')
  case Nil
  show ?case by (simp add: without_dicomdir_def unsummarised_def)
next
  case (Cons d tree)
  obtain root dirs files where d: "d = (root, dirs, files)" by (cases d) auto
  have agree: "\<forall>f \<in> set (filter (\<lambda>f. f \<noteq> ''DICOMDIR'') files). f \<noteq> ''DICOMDIR'' \<longrightarrow>
      read_metadata E' (os_path_join root f) force = read_metadata E (os_path_join root f) force"
    using Cons.prems(1) d by auto
  have files: "walk_files E' path force root (filter (\<lambda>f. f \<noteq> ''DICOMDIR'') files) =
               walk_files E path force root files"
    using walk_files_cong [OF agree Cons.prems(2)] walk_files_filter by simp
  have rest: "unsummarised (walk_dirs E' path force (n' + length (filter (\<lambda>f. f \<noteq> ''DICOMDIR'') files))
                  (without_dicomdir tree)) =
              unsummarised (walk_dirs E path force (n + length files) tree)"
    using Cons.IH Cons.prems by auto
  have "unsummarised (walk_dirs E' path force n' (without_dicomdir (d # tree))) =
        gen_seq (unsummarised (walk_files E' path force root (filter (\<lambda>f. f \<noteq> ''DICOMDIR'') files)))
          (unsummarised (walk_dirs E' path force
             (n' + length (filter (\<lambda>f. f \<noteq> ''DICOMDIR'') files)) (without_dicomdir tree)))"
    by (simp add: d without_dicomdir_def unsummarised_gen_seq)
  also have "\<dots> = gen_seq (unsummarised (walk_files E path force root files))
          (unsummarised (walk_dirs E path force (n + length files) tree))"
    by (simp only: files rest)
  also have "\<dots> = unsummarised (walk_dirs E path force n (d # tree))"
    by (simp add: d unsummarised_gen_seq)
  finally show ?case .
qed

lemma report_via_unsummarised:
  "unsummarised (walk_image_data E' path' True) = unsummarised (walk_image_data E path True)
   \<Longrightarrow> report_image_data E' path' force' = report_image_data E path force"
proof -
  assume eq: "unsummarised (walk_image_data E' path' True) = unsummarised (walk_image_data E path True)"
  obtain evs r where g: "walk_image_data E path True = (evs, r)" by (cases "walk_image_data E path True")
  obtain evs' r' where g': "walk_image_data E' path' True = (evs', r')" by (cases "walk_image_data E' path' True")
  from eq g g' have "filter (\<lambda>ev. \<not> is_summary ev) evs' = filter (\<lambda>ev. \<not> is_summary ev) evs" and r: "r' = r"
    by (simp_all add: unsummarised_def)
  then have "yields evs' = yields evs" using yields_filter by metis
  then show ?thesis using r g g' by (simp add: report_image_data_def)
qed

text \<open>
  C7: a file literally named \<open>DICOMDIR\<close> is skipped unconditionally. Whatever the decoder
  would make of such files, the walker behaves as on the tree without them: the same log
  entries (up to the file count of the summary), the same yielded pairs, the same exception
  if any, and so the same result of the aggregation.
\<close>

theorem dicomdir_skipped:
  assumes "os_walk E' path = without_dicomdir (os_walk E path)"
    and "os_path_relpath E' = os_path_relpath E"
    and "\<forall>(root, dirs, files) \<in> set (os_walk E path). \<forall>f \<in> set files. f \<noteq> ''DICOMDIR'' \<longrightarrow>
           read_metadata E' (os_path_join root f) = read_metadata E (os_path_join root f)"
  shows "unsummarised (walk_image_data E' path force) = unsummarised (walk_image_data E path force)
       \<and> yields (fst (walk_image_data E' path force)) = yields (fst (walk_image_data E path force))
       \<and> report_image_data E' path force = report_image_data E path force"
proof -
  have agree: "\<And>b. \<forall>(root, dirs, files) \<in> set (os_walk E path). \<forall>f \<in> set files. f \<noteq> ''DICOMDIR'' \<longrightarrow>
           read_metadata E' (os_path_join root f) b = read_metadata E (os_path_join root f) b"
    using assms(3) by fastforce
  have u: "\<And>b. unsummarised (walk_image_data E' path b) = unsummarised (walk_image_data E path b)"
    using walk_dirs_stripped [OF agree assms(2), where path = path and n' = 0 and n = 0]
    by (simp add: walk_image_data_def unsummarised_gen_seq assms(1))
  have "yields (fst (unsummarised (walk_image_data E' path force))) =
        yields (fst (unsummarised (walk_image_data E path force)))"
    using u by simp
  then have y: "yields (fst (walk_image_data E' path force)) = yields (fst (walk_image_data E path force))"
    by (simp add: unsummarised_def yields_filter)
  show ?thesis using u y report_via_unsummarised [OF u] by simp
qed

theorem dicomdir_skipped_witness:
  "os_walk (example_env [''unreadable.dcm'', ''a.dcm''] (\<lambda>p f. if p = ''/data/DICOMDIR'' then Inl (InvalidDicomError ''index'') else example_decode p f)) ''/data''
     = without_dicomdir (os_walk (example_env [''DICOMDIR'', ''unreadable.dcm'', ''DICOMDIR'', ''a.dcm''] example_decode) ''/data'')
   \<and> yields (fst (walk_image_data (example_env [''DICOMDIR'', ''unreadable.dcm'', ''DICOMDIR'', ''a.dcm''] example_decode) ''/data'' False))
      = [(rec_a, ''a.dcm'')]
   \<and> report_image_data (example_env [''DICOMDIR'', ''unreadable.dcm'', ''DICOMDIR'', ''a.dcm''] example_decode) ''/data'' False
      = report_image_data (example_env [''unreadable.dcm'', ''a.dcm''] (\<lambda>p f. if p = ''/data/DICOMDIR'' then Inl (InvalidDicomError ''index'') else example_decode p f)) ''/data'' False"
proof -
  let ?E = "example_env [''DICOMDIR'', ''unreadable.dcm'', ''DICOMDIR'', ''a.dcm''] example_decode"
  let ?E' = "example_env [''unreadable.dcm'', ''a.dcm'']
               (\<lambda>p f. if p = ''/data/DICOMDIR'' then Inl (InvalidDicomError ''index'') else example_decode p f)"
  have h1: "os_walk ?E' ''/data'' = without_dicomdir (os_walk ?E ''/data'')"
    by (simp add: example_env_def without_dicomdir_def)
  have h2: "os_path_relpath ?E' = os_path_relpath ?E"
    by (simp add: example_env_def)
  have h3: "\<forall>(root, dirs, files) \<in> set (os_walk ?E ''/data''). \<forall>f \<in> set files. f \<noteq> ''DICOMDIR'' \<longrightarrow>
           read_metadata ?E' (os_path_join root f) = read_metadata ?E (os_path_join root f)"
    by (simp add: example_env_def os_path_join_def)
  have y: "yields (fst (walk_image_data ?E ''/data'' False)) = [(rec_a, ''a.dcm'')]"
    by (simp add: walker_defs)
  show ?thesis using dicomdir_skipped [OF h1 h2 h3, of False] h1 y by simp
qed

section \<open>The aggregator\<close>

lemma report_loop_append:
  "report_loop (xs @ ys) st = then_do (report_loop xs st) (report_loop ys)"
proof (induction xs arbitrary: st)
  case Nil show ?case by simp
next
  case (Cons x xs)
  show ?case by (cases "report_step x st") (simp_all add: Cons)
qed

lemma missing_field_step:
  assumes "find (\<lambda>k. \<not> has_key md k) compulsory_fields = Some k"
  shows "report_step (md, relpath) st = Inl (KeyError (VStr k))"
proof -
  have "compulsory_metadata md = Inl (KeyError (VStr k))"
    using assms
    by (auto simp: compulsory_fields_def compulsory_metadata_def getitem_def has_key_def
             split: if_splits)
  then show ?thesis by (cases st) (simp add: report_step_def fold_record_def)
qed

text \<open>
  C8: a decoded record that lacks one of the compulsory fields raises \<open>KeyError\<close> for the
  first field missing, whatever the state of the loop and whatever records follow; nothing
  catches it, so the aggregation run ends with that error and returns no mapping.
\<close>

theorem missing_field_aborts:
  assumes "find (\<lambda>k. \<not> has_key md k) compulsory_fields = Some k"
  shows "report_loop ((md, relpath) # recs) st = Inl (KeyError (VStr k))
       \<and> (yields (fst (walk_image_data E path True)) = pre @ (md, relpath) # recs
            \<and> report_loop pre (Map.empty, None) = Inr st
          \<longrightarrow> report_image_data E path force = Inl (KeyError (VStr k)))"
proof -
  have step: "report_loop ((md, relpath) # recs) st = Inl (KeyError (VStr k))"
    using missing_field_step [OF assms] by simp
  have "report_image_data E path force = Inl (KeyError (VStr k))"
    if y: "yields (fst (walk_image_data E path True)) = pre @ (md, relpath) # recs"
      and p: "report_loop pre (Map.empty, None) = Inr st"
  proof -
    have "report_loop (pre @ (md, relpath) # recs) (Map.empty, None) = Inl (KeyError (VStr k))"
      using p step by (simp only: report_loop_append then_do.simps)
    then show ?thesis using y
      by (cases "walk_image_data E path True") (simp add: report_image_data_def)
  qed
  then show ?thesis using step by blast
qed

theorem missing_field_aborts_witness:
  "find (\<lambda>k. \<not> has_key rec_d k) compulsory_fields = Some ''SeriesNumber''
   \<and> yields (fst (walk_image_data (example_env [''d.dcm'', ''a.dcm''] example_decode) ''/data'' True))
       = [] @ (rec_d, ''d.dcm'') # [(rec_a, ''a.dcm'')]
   \<and> report_loop [] (Map.empty, None) = Inr (Map.empty, None)
   \<and> report_loop [(rec_d, ''d.dcm''), (rec_a, ''a.dcm'')] (Map.empty, None)
       = Inl (KeyError (VStr ''SeriesNumber''))
   \<and> report_image_data (example_env [''d.dcm'', ''a.dcm''] example_decode) ''/data'' False
       = Inl (KeyError (VStr ''SeriesNumber''))"
proof -
  have h: "find (\<lambda>k. \<not> has_key rec_d k) compulsory_fields = Some ''SeriesNumber''"
    by (simp add: compulsory_fields_def has_key_def rec_d_def)
  have y: "yields (fst (walk_image_data (example_env [''d.dcm'', ''a.dcm''] example_decode) ''/data'' True))
       = [] @ (rec_d, ''d.dcm'') # [(rec_a, ''a.dcm'')]"
    by (simp add: walker_defs)
  have p: "report_loop [] (Map.empty, None) = Inr (Map.empty, None)" by simp
  show ?thesis
    using missing_field_aborts [OF h, of "''d.dcm''" "[(rec_a, ''a.dcm'')]" "(Map.empty, None)"
        "example_env [''d.dcm'', ''a.dcm''] example_decode" "''/data''" "[]" False] h y p
    by blast
qed

subsection \<open>Every iteration of the loop raises\<close>

text \<open>
  In the first-seen branch the name \<open>metadata\<close> is bound to the new dictionary of the
  series, so the loop over the optional metadata runs over the keys of that dictionary and
  calls \<open>update\<close> on the timestamp stored under \<open>MinAcquisitionDateTime\<close>. In the other
  branch line 121 evaluates the unbound name \<open>SeriesDescription\<close>. Hence no iteration
  completes, and \<open>report_image_data\<close> returns only when the walker yields nothing.
\<close>

lemma first_seen_shape:
  assumes "first_seen sd series_uid image_uid series_number series_description image_types
             timestamp relpath = Inr (md', sd')"
  shows "\<exists>c1 c2 c3 ts. timestamp = Some ts
           \<and> md' = [(''SeriesNumber'', VCounter c1), (''SeriesDescription'', VCounter c2),
                    (''ImageType'', VCounter c3), (''MinAcquisitionDateTime'', VDateTime ts),
                    (''MaxAcquisitionDateTime'', VDateTime ts)]
           \<and> sd' = sd(series_uid \<mapsto> \<lparr>metadata = md', images = [image_uid \<mapsto> relpath]\<rparr>)"
  using assms
  by (auto simp: first_seen_def then_do_Inr_iff local_var_def Let_def
           split: if_splits option.splits)

lemma first_seen_optional_raises:
  assumes "first_seen sd series_uid image_uid series_number series_description image_types
             timestamp relpath = Inr (md', sd')"
  shows "optional_metadata (map fst md') md' series_uid sd' = Inl (AttributeError ''update'')"
proof -
  from first_seen_shape [OF assms] obtain c1 c2 c3 ts where
    md': "md' = [(''SeriesNumber'', VCounter c1), (''SeriesDescription'', VCounter c2),
                 (''ImageType'', VCounter c3), (''MinAcquisitionDateTime'', VDateTime ts),
                 (''MaxAcquisitionDateTime'', VDateTime ts)]"
    and sd': "sd' = sd(series_uid \<mapsto> \<lparr>metadata = md', images = [image_uid \<mapsto> relpath]\<rparr>)"
    by blast
  show ?thesis
    unfolding md'
    by (simp add: optional_field_def named_fields_def get_series_def sd' has_key_def
          counter_field_update_def getitem_def md')
qed

lemma counter_field_update_raising_arg:
  "\<exists>e'. counter_field_update sd series_uid field (Inl e) = Inl e'"
  by (auto simp: counter_field_update_def get_series_def getitem_def
           split: option.splits pyval.splits)

lemma update_series_raises:
  "\<exists>e. update_series sd series_uid image_uid series_number series_description image_types
          timestamp relpath = Inl e"
proof (cases "counter_field_update sd series_uid ''SeriesNumber'' (Inr [series_number])")
  case (Inl e)
  then show ?thesis by (simp add: update_series_def)
next
  case (Inr sd1)
  obtain e' where "counter_field_update sd1 series_uid ''SeriesDescription''
                     (Inl (NameError ''SeriesDescription'')) = Inl e'"
    using counter_field_update_raising_arg by blast
  then show ?thesis using Inr by (simp add: update_series_def)
qed

lemma fold_record_shape:
  assumes "fold_record (md, relpath) (sd, timestamp0) = Inr (series_uid, md', sd', timestamp)"
  shows "\<exists>image_uid series_number series_description image_types.
           compulsory_metadata md =
             Inr (series_uid, image_uid, series_number, series_description, image_types)
         \<and> acquisition_timestamp md timestamp0 = Inr timestamp
         \<and> hashable series_uid \<and> sd series_uid = None
         \<and> first_seen sd series_uid image_uid series_number series_description image_types
              timestamp relpath = Inr (md', sd')"
proof -
  from assms obtain image_uid series_number series_description image_types new where
    c: "compulsory_metadata md =
          Inr (series_uid, image_uid, series_number, series_description, image_types)"
    and t: "acquisition_timestamp md timestamp0 = Inr timestamp"
    and n: "not_in series_uid sd = Inr new"
    and br: "(if new then
         then_do (first_seen sd series_uid image_uid series_number series_description
                    image_types timestamp relpath) (\<lambda>(md', sd').
         Inr (series_uid, md', sd', timestamp))
       else
         then_do (update_series sd series_uid image_uid series_number series_description
                    image_types timestamp relpath) (\<lambda>sd'.
         Inr (series_uid, md, sd', timestamp))) = Inr (series_uid, md', sd', timestamp)"
    unfolding fold_record_def
    by (auto simp: then_do_Inr_iff split: if_splits)
  have new: new
    using br update_series_raises [of sd series_uid image_uid series_number
        series_description image_types timestamp relpath]
    by (auto simp: then_do_Inr_iff split: if_splits)
  then have "first_seen sd series_uid image_uid series_number series_description image_types
               timestamp relpath = Inr (md', sd')"
    using br by (auto simp: then_do_Inr_iff)
  moreover have "hashable series_uid \<and> sd series_uid = None"
    using n new by (auto simp: not_in_def split: if_splits)
  ultimately show ?thesis using c t by blast
qed

lemma report_step_raises: "\<exists>e. report_step rec st = Inl e"
proof (rule ccontr)
  assume "\<not> ?thesis"
  then obtain st' where ok: "report_step rec st = Inr st'"
    by (cases "report_step rec st") auto
  obtain md relpath sd timestamp0 where rec: "rec = (md, relpath)" and st: "st = (sd, timestamp0)"
    by (cases rec; cases st) auto
  from ok obtain series_uid md' sd' timestamp sd''
    where f: "fold_record (md, relpath) (sd, timestamp0) = Inr (series_uid, md', sd', timestamp)"
      and opt: "optional_metadata (map fst md') md' series_uid sd' = Inr sd''"
    unfolding report_step_def rec st
    by (auto simp: then_do_Inr_iff)
  from fold_record_shape [OF f] opt first_seen_optional_raises show False by fastforce
qed

lemma report_loop_raises: "recs \<noteq> [] \<Longrightarrow> \<exists>e. report_loop recs st = Inl e"
  using report_step_raises [of "hd recs" st] by (cases recs) auto

lemma report_image_data_returns:
  "report_image_data E path force = Inr sd \<Longrightarrow>
     sd = Map.empty \<and> yields (fst (walk_image_data E path True)) = []"
proof -
  assume ok: "report_image_data E path force = Inr sd"
  obtain evs r where g: "walk_image_data E path True = (evs, r)"
    by (cases "walk_image_data E path True")
  have "yields evs = []"
  proof (rule ccontr)
    assume "yields evs \<noteq> []"
    then obtain e where "report_loop (yields evs) (Map.empty, None) = Inl e"
      using report_loop_raises by blast
    then show False using ok g by (simp add: report_image_data_def)
  qed
  then show ?thesis using ok g
    by (auto simp: report_image_data_def split: option.splits)
qed

subsection \<open>The walker is run with \<open>force=True\<close>\<close>

text \<open>
  C9: the aggregator calls the walker with \<open>force=True\<close> whatever the caller passes. What
  \<open>report_image_data\<close> gives is fixed by the forced walk: the exception of that walk, or
  the empty mapping, when it yields nothing, and otherwise the exception raised for the
  first pair it yields. So the result is the same for both values of \<open>force\<close>, and the same
  for any decoder that behaves alike when forced.
\<close>

theorem force_always_true:
  assumes "\<forall>abspath. read_metadata E' abspath True = read_metadata E abspath True"
    and "os_walk E' = os_walk E" and "os_path_relpath E' = os_path_relpath E"
  shows "report_image_data E' path force' = report_image_data E path force
       \<and> (yields (fst (walk_image_data E path True)) = []
          \<longrightarrow> report_image_data E path force =
                (case snd (walk_image_data E path True) of
                   Some e \<Rightarrow> Inl e | None \<Rightarrow> Inr Map.empty))
       \<and> (yields (fst (walk_image_data E path True)) = rec # recs
          \<longrightarrow> (\<exists>e. report_step rec (Map.empty, None) = Inl e
                   \<and> report_image_data E path force = Inl e))"
proof -
  have "\<And>n tree. walk_dirs E' path True n tree = walk_dirs E path True n tree"
  proof -
    fix n tree show "walk_dirs E' path True n tree = walk_dirs E path True n tree"
    proof (induction tree arbitrary: n)
      case Nil show ?case by simp
    next
      case (Cons d tree)
      obtain root dirs files where d: "d = (root, dirs, files)" by (cases d) auto
      have "walk_files E' path True root files = walk_files E path True root files"
        using walk_files_cong [of files E' root True E path] assms(1,3) by simp
      then show ?case using Cons by (simp add: d)
    qed
  qed
  then have "walk_image_data E' path True = walk_image_data E path True"
    by (simp add: walk_image_data_def assms(2))
  then have same: "report_image_data E' path force' = report_image_data E path force"
    by (simp add: report_image_data_def)
  obtain evs raised where w: "walk_image_data E path True = (evs, raised)"
    by (cases "walk_image_data E path True")
  have none: "report_image_data E path force =
                (case snd (walk_image_data E path True) of
                   Some e \<Rightarrow> Inl e | None \<Rightarrow> Inr Map.empty)"
    if "yields (fst (walk_image_data E path True)) = []"
    using that w by (simp add: report_image_data_def)
  have some: "\<exists>e. report_step rec (Map.empty, None) = Inl e
                \<and> report_image_data E path force = Inl e"
    if "yields (fst (walk_image_data E path True)) = rec # recs"
  proof -
    obtain e where e: "report_step rec (Map.empty, None) = Inl e"
      using report_step_raises by blast
    then have "report_image_data E path force = Inl e"
      using that w by (simp add: report_image_data_def)
    then show ?thesis using e by blast
  qed
  show ?thesis using same none some by blast
qed

theorem force_always_true_witness:
  "(\<forall>abspath. read_metadata (example_env [''nonstandard.dcm''] (\<lambda>p f. example_decode p True)) abspath True
       = read_metadata (example_env [''nonstandard.dcm''] example_decode) abspath True)
   \<and> walk_image_data (example_env [''nonstandard.dcm''] example_decode) ''/data'' False
       = ([LogStart ''/data'', LogRead ''nonstandard.dcm''], Some (NameError ''dicom''))
   \<and> yields (fst (walk_image_data (example_env [''nonstandard.dcm''] example_decode) ''/data'' True))
       = [(rec_b, ''nonstandard.dcm'')]
   \<and> report_step (rec_b, ''nonstandard.dcm'') (Map.empty, None) = Inl (AttributeError ''update'')
   \<and> report_image_data (example_env [''nonstandard.dcm''] example_decode) ''/data'' False
       = Inl (AttributeError ''update'')
   \<and> report_image_data (example_env [''nonstandard.dcm''] (\<lambda>p f. example_decode p True)) ''/data'' True
       = report_image_data (example_env [''nonstandard.dcm''] example_decode) ''/data'' False
   \<and> yields (fst (walk_image_data (example_env [''unreadable.dcm'', ''broken.dcm''] example_decode) ''/data'' True))
       = []
   \<and> snd (walk_image_data (example_env [''unreadable.dcm'', ''broken.dcm''] example_decode) ''/data'' True)
       = Some (NameError ''dicom'')
   \<and> report_image_data (example_env [''unreadable.dcm'', ''broken.dcm''] example_decode) ''/data'' False
       = Inl (NameError ''dicom'')"
proof -
  let ?E = "example_env [''nonstandard.dcm''] example_decode"
  let ?E' = "example_env [''nonstandard.dcm''] (\<lambda>p f. example_decode p True)"
  let ?F = "example_env [''unreadable.dcm'', ''broken.dcm''] example_decode"
  have h1: "\<forall>abspath. read_metadata ?E' abspath True = read_metadata ?E abspath True"
    by (simp add: example_env_def)
  have h2: "os_walk ?E' = os_walk ?E" by (simp add: example_env_def)
  have h3: "os_path_relpath ?E' = os_path_relpath ?E" by (simp add: example_env_def)
  have hF: "\<forall>abspath. read_metadata ?F abspath True = read_metadata ?F abspath True" by simp
  have unforced: "walk_image_data ?E ''/data'' False
       = ([LogStart ''/data'', LogRead ''nonstandard.dcm''], Some (NameError ''dicom''))"
    by (simp add: walker_defs)
  have y: "yields (fst (walk_image_data ?E ''/data'' True)) = [(rec_b, ''nonstandard.dcm'')]"
    by (simp add: walker_defs)
  have st: "report_step (rec_b, ''nonstandard.dcm'') (Map.empty, None) = Inl (AttributeError ''update'')"
    by (simp add: step_defs rec_b_def)
  have yF: "yields (fst (walk_image_data ?F ''/data'' True)) = []"
    by (simp add: walker_defs)
  have rF: "snd (walk_image_data ?F ''/data'' True) = Some (NameError ''dicom'')"
    by (simp add: walker_defs)
  note a = force_always_true [OF h1 h2 h3, of "''/data''" True False
      "(rec_b, ''nonstandard.dcm'')" "[]"]
  note b = force_always_true [OF hF refl refl, of "''/data''" False False]
  have 1: "report_image_data ?E ''/data'' False = Inl (AttributeError ''update'')"
    using a [THEN conjunct2, THEN conjunct2, THEN mp, OF y] st by auto
  have 2: "report_image_data ?E' ''/data'' True = report_image_data ?E ''/data'' False"
    using a [THEN conjunct1] .
  have 3: "report_image_data ?F ''/data'' False = Inl (NameError ''dicom'')"
    using b [THEN conjunct2, THEN conjunct1, THEN mp, OF yF] rF by simp
  show ?thesis using h1 unforced y st 1 2 yF rF 3 by blast
qed

subsection \<open>Decoder failures in the walker\<close>

text \<open>
  A file the decoder cannot open (\<open>IOError\<close>) is logged and the walk goes on; any other
  exception of the decoder ends the walk with \<open>NameError\<close>.
\<close>

lemma unreadable_file_skipped:
  assumes "filename \<noteq> ''DICOMDIR''"
    and "read_metadata E (os_path_join root filename) force = Inl (IOError e)"
  shows "walk_files E path force root (filename # files) =
           gen_seq ([LogRead (os_path_relpath E (os_path_join root filename) path),
                     LogCannotRead e (os_path_relpath E (os_path_join root filename) path)], None)
             (walk_files E path force root files)"
  using assms by (cases "walk_files E path force root files") (simp add: Let_def)

lemma undecodable_file_raises:
  assumes "filename \<noteq> ''DICOMDIR''"
    and "read_metadata E (os_path_join root filename) force = Inl x"
    and "\<forall>e. x \<noteq> IOError e"
  shows "walk_files E path force root (filename # files) =
           ([LogRead (os_path_relpath E (os_path_join root filename) path)],
            Some (NameError ''dicom''))"
  using assms by (cases x) (simp_all add: Let_def)

text \<open>
  C2: the specification states that each of the three decoder failures is logged and the
  walk continues. On the code a file that raises \<open>InvalidDicomError\<close> or
  \<open>AttributeError\<close> ends the walk with \<open>NameError\<close>: the file
  \<open>a.dcm\<close> that follows is never read, and the aggregation run ends with that
  error.
\<close>

theorem decode_failure_raises:
  "walk_image_data (example_env [''broken.dcm'', ''a.dcm''] example_decode) ''/data'' True
     = ([LogStart ''/data'', LogRead ''broken.dcm''], Some (NameError ''dicom''))
   \<and> walk_image_data (example_env [''noattr.dcm'', ''a.dcm''] example_decode) ''/data'' True
     = ([LogStart ''/data'', LogRead ''noattr.dcm''], Some (NameError ''dicom''))
   \<and> report_image_data (example_env [''broken.dcm'', ''a.dcm''] example_decode) ''/data'' False
     = Inl (NameError ''dicom'')"
  by (simp add: walker_defs report_image_data_def)

subsection \<open>The aggregator on example trees\<close>

text \<open>
  C1: the specification states that a record of a series already present increments the
  three frequency tables, so that \<open>SeriesNumber\<close> sums to the number of files.
  On the code a tree with two files of one series gives no mapping: the run raises while
  folding the first file, and the loop body entered with the aggregate of
  \<open>a.dcm\<close> in place raises \<open>NameError\<close> at line 121.
\<close>

theorem seen_series_update_raises:
  "report_image_data (example_env [''a.dcm'', ''b.dcm''] example_decode) ''/data'' False
     = Inl (AttributeError ''update'')
   \<and> first_seen Map.empty (VStr ''S1'') (VStr ''I1'') (VInt 1) (VStr ''T1'')
         (VList [VStr ''ORIGINAL'', VStr ''PRIMARY'']) (Some ((2020, 1, 1), (0, 0, 0, 0))) ''a.dcm''
     = Inr (metadata_a, series_dict_a)
   \<and> report_step (rec_b, ''b.dcm'') (series_dict_a, Some ((2020, 1, 1), (0, 0, 0, 0)))
     = Inl (NameError ''SeriesDescription'')"
  by (simp add: walker_defs report_image_data_def step_defs rec_a_def rec_b_def
        series_dict_a_def metadata_a_def)

text \<open>
  C4: the specification states that a record of a series already present is entered into
  \<open>images\<close>, the later path replacing the earlier one. On the code two files
  with the same \<open>SOPInstanceUID\<close> give no mapping, and line 128 on its own
  raises \<open>AttributeError\<close>: it assigns through the attribute
  \<open>files\<close>, which a \<open>Series\<close> does not have.
\<close>

theorem image_insert_raises:
  "report_image_data (example_env [''a.dcm'', ''a_copy.dcm''] example_decode) ''/data'' False
     = Inl (AttributeError ''update'')
   \<and> insert_image series_dict_a (VStr ''S1'') (VStr ''I1'') ''a_copy.dcm''
     = Inl (AttributeError ''files'')"
  by (simp add: walker_defs report_image_data_def step_defs rec_a_def
        series_dict_a_def metadata_a_def)

text \<open>
  C5: the specification states that every further field of a record is counted in a table
  under its own name, for the first record of a series too. On the code the first record
  \<open>a.dcm\<close>, which carries \<open>Modality\<close>, gives no mapping: after the
  first-seen branch the loop runs over the dictionary of the series (second equation) and
  raises. Run over the record itself, the same loop would create the table (third equation).
\<close>

theorem optional_fields_not_counted:
  "report_image_data (example_env [''a.dcm''] example_decode) ''/data'' False
     = Inl (AttributeError ''update'')
   \<and> optional_metadata (map fst metadata_a) metadata_a (VStr ''S1'') series_dict_a
     = Inl (AttributeError ''update'')
   \<and> optional_metadata (map fst rec_a) rec_a (VStr ''S1'') series_dict_a
     = Inr (series_dict_a(VStr ''S1'' \<mapsto>
              \<lparr>metadata = metadata_a @ [(''Modality'', VCounter [(VStr ''MR'', 1)])],
               images = [VStr ''I1'' \<mapsto> ''a.dcm'']\<rparr>))"
  by (simp add: walker_defs report_image_data_def step_defs rec_a_def
        series_dict_a_def metadata_a_def)

text \<open>
  The variable \<open>timestamp\<close> is not cleared between iterations: entered with the timestamp
  of a record of series \<open>S1\<close>, the loop body would keep it for \<open>rec_c\<close>, which has no
  \<open>AcquisitionDate\<close>, and store it as both ends of the interval of series \<open>S2\<close>. As
  every iteration raises, no run enters the loop body in such a state; entered with the
  variable unassigned, line 115 raises \<open>UnboundLocalError\<close>.
\<close>

lemma timestamp_carried_over:
  "acquisition_timestamp rec_c (Some ((2020, 1, 1), (0, 0, 0, 0)))
     = Inr (Some ((2020, 1, 1), (0, 0, 0, 0)))
   \<and> first_seen series_dict_a (VStr ''S2'') (VStr ''I3'') (VInt 2) (VStr ''T2'')
         (VList [VStr ''DERIVED'']) (Some ((2020, 1, 1), (0, 0, 0, 0))) ''c.dcm''
     = Inr (metadata_c, series_dict_ac)
   \<and> report_image_data (example_env [''c.dcm''] example_decode) ''/data'' False
     = Inl (UnboundLocalError ''timestamp'')"
  by (simp add: walker_defs report_image_data_def step_defs rec_c_def
        series_dict_a_def series_dict_ac_def metadata_a_def metadata_c_def)


subsection \<open>The iterations a run enters\<close>






section \<open>Invariants of the series dictionary\<close>

subsection \<open>What a successful statement has done\<close>

lemma map_of_setitem:
  "map_of (setitem d k v) k' = (if k' = k then Some v else map_of d k')"
  by (induction d) auto

lemma counter_field_update_shape:
  assumes "counter_field_update sd series_uid field arg = Inr sd'"
  shows "\<exists>s c vs c'. sd series_uid = Some s \<and> map_of (metadata s) field = Some (VCounter c)
           \<and> arg = Inr vs \<and> counter_update c vs = Inr c'
           \<and> sd' = sd(series_uid \<mapsto> s\<lparr>metadata := setitem (metadata s) field (VCounter c')\<rparr>)"
  using assms
  by (auto simp: counter_field_update_def get_series_def getitem_def then_do_Inr_iff
           split: option.splits pyval.splits)

lemma set_series_field_shape:
  assumes "set_series_field sd series_uid field v = Inr sd'"
  shows "\<exists>s. sd series_uid = Some s
           \<and> sd' = sd(series_uid \<mapsto> s\<lparr>metadata := setitem (metadata s) field v\<rparr>)"
  using assms
  by (auto simp: set_series_field_def get_series_def then_do_Inr_iff split: option.splits)

lemma get_series_Inr: "get_series sd series_uid = Inr s \<longleftrightarrow> sd series_uid = Some s"
  by (simp add: get_series_def split: option.splits)

lemma getitem_Inr: "getitem d k = Inr v \<longleftrightarrow> map_of d k = Some v"
  by (simp add: getitem_def split: option.splits)

lemma local_var_Inr: "local_var name v = Inr x \<longleftrightarrow> v = Some x"
  by (simp add: local_var_def split: option.splits)

lemma datetime_less_Inr: "datetime_less a b = Inr r \<longleftrightarrow> (\<exists>b'. b = VDateTime b' \<and> r = (a < b'))"
  by (cases b) (auto simp: datetime_less_def)

lemma datetime_greater_Inr:
  "datetime_greater a b = Inr r \<longleftrightarrow> (\<exists>b'. b = VDateTime b' \<and> r = (b' < a))"
  by (cases b) (auto simp: datetime_greater_def)

lemma update_extrema_shape:
  assumes "update_extrema sd series_uid timestamp = Inr sd'"
  shows "\<exists>s ts mn mx. timestamp = Some ts \<and> sd series_uid = Some s
           \<and> map_of (metadata s) ''MinAcquisitionDateTime'' = Some (VDateTime mn)
           \<and> map_of (metadata s) ''MaxAcquisitionDateTime'' = Some (VDateTime mx)
           \<and> sd' = sd(series_uid \<mapsto> s\<lparr>metadata :=
                 (let m1 = (if ts < mn then setitem (metadata s) ''MinAcquisitionDateTime'' (VDateTime ts)
                            else metadata s)
                  in if mx < ts then setitem m1 ''MaxAcquisitionDateTime'' (VDateTime ts) else m1)\<rparr>)"
proof -
  from assms obtain ts s mn sd1 s1 mx where
    ts: "timestamp = Some ts" and s: "sd series_uid = Some s"
    and mn: "map_of (metadata s) ''MinAcquisitionDateTime'' = Some (VDateTime mn)"
    and sd1: "(if ts < mn then set_series_field sd series_uid ''MinAcquisitionDateTime'' (VDateTime ts)
               else Inr sd) = Inr sd1"
    and s1: "sd1 series_uid = Some s1"
    and mx: "map_of (metadata s1) ''MaxAcquisitionDateTime'' = Some (VDateTime mx)"
    and res: "(if mx < ts then set_series_field sd1 series_uid ''MaxAcquisitionDateTime'' (VDateTime ts)
               else Inr sd1) = Inr sd'"
    unfolding update_extrema_def then_do_Inr_iff get_series_Inr getitem_Inr local_var_Inr
      datetime_less_Inr datetime_greater_Inr
    by blast
  let ?m1 = "if ts < mn then setitem (metadata s) ''MinAcquisitionDateTime'' (VDateTime ts)
             else metadata s"
  have sd1_eq: "sd1 = sd(series_uid \<mapsto> s\<lparr>metadata := ?m1\<rparr>)"
  proof (cases "ts < mn")
    case True
    then show ?thesis using sd1 s set_series_field_shape [of sd series_uid _ _ sd1] by fastforce
  next
    case False
    then have "sd1 = sd" using sd1 by simp
    then show ?thesis using False s by (simp add: fun_upd_idem)
  qed
  then have s1_eq: "s1 = s\<lparr>metadata := ?m1\<rparr>" using s1 by simp
  have mx0: "map_of (metadata s) ''MaxAcquisitionDateTime'' = Some (VDateTime mx)"
    using mx s1_eq by (simp add: map_of_setitem split: if_splits)
  have "sd' = sd(series_uid \<mapsto> s\<lparr>metadata :=
          (if mx < ts then setitem ?m1 ''MaxAcquisitionDateTime'' (VDateTime ts) else ?m1)\<rparr>)"
  proof (cases "mx < ts")
    case True
    then have "set_series_field sd1 series_uid ''MaxAcquisitionDateTime'' (VDateTime ts) = Inr sd'"
      using res by simp
    from set_series_field_shape [OF this] s1 s1_eq sd1_eq True show ?thesis by simp
  next
    case False
    then show ?thesis using res sd1_eq by simp
  qed
  then show ?thesis using ts s mn mx0 unfolding Let_def by blast
qed

subsection \<open>The timestamp interval stays ordered\<close>

lemma extrema_ordered_iff:
  "extrema_ordered s \<longleftrightarrow>
     (\<exists>mn mx. map_of (metadata s) ''MinAcquisitionDateTime'' = Some (VDateTime mn)
        \<and> map_of (metadata s) ''MaxAcquisitionDateTime'' = Some (VDateTime mx) \<and> mn \<le> mx)"
proof (cases "map_of (metadata s) ''MinAcquisitionDateTime''")
  case None
  then show ?thesis by (simp add: extrema_ordered_def)
next
  case (Some a)
  show ?thesis
  proof (cases "map_of (metadata s) ''MaxAcquisitionDateTime''")
    case None
    then show ?thesis using Some by (cases a) (simp_all add: extrema_ordered_def)
  next
    case (Some b)
    then show ?thesis using \<open>map_of (metadata s) ''MinAcquisitionDateTime'' = Some a\<close>
      by (cases a; cases b)
         (simp_all add: extrema_ordered_def del: split_paired_All split_paired_Ex)
  qed
qed

lemma extrema_ordered_other_field:
  assumes "extrema_ordered s" and "field \<noteq> ''MinAcquisitionDateTime''"
    and "field \<noteq> ''MaxAcquisitionDateTime''"
  shows "extrema_ordered (s\<lparr>metadata := setitem (metadata s) field v\<rparr>)"
  using assms by (simp add: extrema_ordered_iff map_of_setitem)


lemma counter_field_update_ordered:
  assumes "counter_field_update sd series_uid field arg = Inr sd'"
    and "sd series_uid = Some s" and "extrema_ordered s"
  shows "\<exists>s'. sd' series_uid = Some s' \<and> extrema_ordered s'"
proof -
  from counter_field_update_shape [OF assms(1)] assms(2) obtain c c' where
    c: "map_of (metadata s) field = Some (VCounter c)"
    and sd': "sd' = sd(series_uid \<mapsto> s\<lparr>metadata := setitem (metadata s) field (VCounter c')\<rparr>)"
    by auto
  have "field \<noteq> ''MinAcquisitionDateTime''" "field \<noteq> ''MaxAcquisitionDateTime''"
    using c assms(3) by (auto simp: extrema_ordered_iff)
  then show ?thesis using sd' extrema_ordered_other_field [OF assms(3)] by simp
qed

lemma update_extrema_ordered:
  assumes "update_extrema sd series_uid timestamp = Inr sd'"
    and "sd series_uid = Some s" and "extrema_ordered s"
  shows "\<exists>s'. sd' series_uid = Some s' \<and> extrema_ordered s'"
proof -
  from update_extrema_shape [OF assms(1)] assms(2) obtain ts mn mx where
    mn: "map_of (metadata s) ''MinAcquisitionDateTime'' = Some (VDateTime mn)"
    and mx: "map_of (metadata s) ''MaxAcquisitionDateTime'' = Some (VDateTime mx)"
    and sd': "sd' = sd(series_uid \<mapsto> s\<lparr>metadata :=
                 (let m1 = (if ts < mn then setitem (metadata s) ''MinAcquisitionDateTime'' (VDateTime ts)
                            else metadata s)
                  in if mx < ts then setitem m1 ''MaxAcquisitionDateTime'' (VDateTime ts) else m1)\<rparr>)"
    by auto
  have le: "mn \<le> mx" using assms(3) mn mx by (simp add: extrema_ordered_iff)
  let ?m1 = "if ts < mn then setitem (metadata s) ''MinAcquisitionDateTime'' (VDateTime ts)
             else metadata s"
  let ?m2 = "if mx < ts then setitem ?m1 ''MaxAcquisitionDateTime'' (VDateTime ts) else ?m1"
  let ?mn' = "if ts < mn then ts else mn"
  let ?mx' = "if mx < ts then ts else mx"
  have 1: "map_of ?m2 ''MinAcquisitionDateTime'' = Some (VDateTime ?mn')"
    using mn by (simp add: map_of_setitem)
  have 2: "map_of ?m2 ''MaxAcquisitionDateTime'' = Some (VDateTime ?mx')"
    using mx by (simp add: map_of_setitem)
  have 3: "?mn' \<le> ?mx'" using le by auto
  have sel: "metadata (s\<lparr>metadata := ?m2\<rparr>) = ?m2" by simp
  have "extrema_ordered (s\<lparr>metadata := ?m2\<rparr>)"
    unfolding extrema_ordered_iff sel using 1 2 3 by blast
  then show ?thesis unfolding sd' Let_def by simp
qed


lemma optional_field_cases:
  assumes "optional_field md series_uid x sd = Inr sd'"
  shows "sd' = sd
       \<or> (\<exists>s arg. sd series_uid = Some s \<and> has_key (metadata s) x
             \<and> counter_field_update sd series_uid x arg = Inr sd')
       \<or> (\<exists>s v. sd series_uid = Some s \<and> \<not> has_key (metadata s) x
             \<and> set_series_field sd series_uid x v = Inr sd')"
  using assms
  by (auto simp: optional_field_def then_do_Inr_iff get_series_Inr split: if_splits)

lemma optional_field_ordered:
  assumes "optional_field md series_uid x sd = Inr sd'"
    and "sd series_uid = Some s" and "extrema_ordered s"
  shows "\<exists>s'. sd' series_uid = Some s' \<and> extrema_ordered s'"
proof -
  consider "sd' = sd"
    | arg where "counter_field_update sd series_uid x arg = Inr sd'"
    | v where "\<not> has_key (metadata s) x" "set_series_field sd series_uid x v = Inr sd'"
    using optional_field_cases [OF assms(1)] assms(2) by auto
  then show ?thesis
  proof cases
    case 1
    then show ?thesis using assms by simp
  next
    case 2
    then show ?thesis using counter_field_update_ordered assms by blast
  next
    case 3
    have "x \<noteq> ''MinAcquisitionDateTime''" "x \<noteq> ''MaxAcquisitionDateTime''"
      using 3(1) assms(3) by (auto simp: extrema_ordered_iff has_key_def)
    then show ?thesis
      using set_series_field_shape [OF 3(2)] assms(2) extrema_ordered_other_field [OF assms(3)]
      by auto
  qed
qed

lemma optional_metadata_ordered:
  assumes "optional_metadata xs md series_uid sd = Inr sd'"
    and "sd series_uid = Some s" and "extrema_ordered s"
  shows "\<exists>s'. sd' series_uid = Some s' \<and> extrema_ordered s'"
  using assms
proof (induction xs arbitrary: sd s)
  case Nil
  then show ?case by simp
next
  case (Cons x xs)
  from Cons.prems(1) obtain sd1 where
    1: "optional_field md series_uid x sd = Inr sd1"
    and 2: "optional_metadata xs md series_uid sd1 = Inr sd'"
    by (auto simp: then_do_Inr_iff)
  from optional_field_ordered [OF 1 Cons.prems(2,3)] obtain s1 where
    "sd1 series_uid = Some s1" "extrema_ordered s1" by blast
  then show ?case using Cons.IH [OF 2] by blast
qed

subsection \<open>Only the entry of the series at hand changes\<close>


lemma counter_field_update_frame:
  assumes "counter_field_update sd series_uid field arg = Inr sd'" and "u \<noteq> series_uid"
  shows "sd' u = sd u"
  using counter_field_update_shape [OF assms(1)] assms(2) by auto

lemma set_series_field_frame:
  assumes "set_series_field sd series_uid field v = Inr sd'" and "u \<noteq> series_uid"
  shows "sd' u = sd u"
  using set_series_field_shape [OF assms(1)] assms(2) by auto

lemma update_extrema_frame:
  assumes "update_extrema sd series_uid timestamp = Inr sd'" and "u \<noteq> series_uid"
  shows "sd' u = sd u"
proof -
  from update_extrema_shape [OF assms(1)] obtain s m where
    "sd' = sd(series_uid \<mapsto> s\<lparr>metadata := m\<rparr>)" by blast
  then show ?thesis using assms(2) by simp
qed

lemma optional_field_frame:
  assumes "optional_field md series_uid x sd = Inr sd'" and "u \<noteq> series_uid"
  shows "sd' u = sd u"
  using optional_field_cases [OF assms(1)] assms(2)
    counter_field_update_frame set_series_field_frame
  by metis

lemma optional_metadata_frame:
  assumes "optional_metadata xs md series_uid sd = Inr sd'" and "u \<noteq> series_uid"
  shows "sd' u = sd u"
  using assms
proof (induction xs arbitrary: sd)
  case Nil
  then show ?case by simp
next
  case (Cons x xs)
  from Cons.prems(1) obtain sd1 where
    1: "optional_field md series_uid x sd = Inr sd1"
    and 2: "optional_metadata xs md series_uid sd1 = Inr sd'"
    by (auto simp: then_do_Inr_iff)
  show ?case using Cons.IH [OF 2 Cons.prems(2)] optional_field_frame [OF 1 Cons.prems(2)] by simp
qed











end
